theory Spec2Isabelle
  imports Main
begin

section \<open>The SWE-bench stub runner: \<^verbatim>\<open>harness/adapters/swebench/run.py\<close>\<close>

text \<open>
  The script has one function, \<^verbatim>\<open>main\<close>:
  \<^verbatim>\<open>
  def main() -> None:
      ts = time.strftime("%Y%m%d-%H%M%S")
      result = {"timestamp": ts, "instances": 0, "resolved": 0, "score": 0}
      out_dir = os.path.join(os.path.dirname(__file__), "..", "..", "results")
      os.makedirs(out_dir, exist_ok=True)
      with open(os.path.join(out_dir, f"swebench-{ts}.json"), "w") as f:
          json.dump(result, f, indent=2)
      print(json.dumps(result))
  \<close>
  Everything it does goes through the standard library, so the embedding has two layers:
  the library functions \<^verbatim>\<open>main\<close> calls (\<^verbatim>\<open>time.strftime\<close>, \<^verbatim>\<open>posixpath\<close>,
  \<^verbatim>\<open>os.makedirs\<close>, \<^verbatim>\<open>open\<close>, \<^verbatim>\<open>json\<close>), modelled after CPython on a POSIX system, and
  \<^verbatim>\<open>main\<close> itself, translated line by line on top of them.
\<close>

subsection \<open>Decimal numerals\<close>

definition digit_char :: "nat \<Rightarrow> char" where
  "digit_char d = ''0123456789'' ! d"

definition is_digit :: "char \<Rightarrow> bool" where
  "is_digit c = (c \<in> set ''0123456789'')"

text \<open>The decimal digits of a natural number, most significant first (C's \<^verbatim>\<open>%d\<close>).\<close>

fun dec :: "nat \<Rightarrow> string" where
  "dec n = (if n < 10 then [digit_char n] else dec (n div 10) @ [digit_char (n mod 10)])"

declare dec.simps [simp del]

text \<open>Python's \<^verbatim>\<open>repr\<close> of an \<^verbatim>\<open>int\<close>, which is also C's \<^verbatim>\<open>%d\<close> of a signed number.\<close>

definition int_repr :: "int \<Rightarrow> string" where
  "int_repr i = (if i < 0 then CHR ''-'' # dec (nat (- i)) else dec (nat i))"

text \<open>C's \<^verbatim>\<open>%02d\<close> of a non-negative number: at least two digits, zero-padded.\<close>

definition pad2 :: "nat \<Rightarrow> string" where
  "pad2 n = (if n < 10 then CHR ''0'' # dec n else dec n)"

subsection \<open>\<^verbatim>\<open>time.strftime\<close>\<close>

text \<open>
  \<^verbatim>\<open>time.strftime(format)\<close> without a time tuple formats \<^verbatim>\<open>time.localtime()\<close>. The
  broken-down local time is the part of the environment the call reads; the record holds
  the fields the six directives of the format use, with the ranges Python documents for
  \<^verbatim>\<open>struct_time\<close> (\<open>tm_mon\<close> 1..12, \<open>tm_mday\<close> 1..31, \<open>tm_hour\<close> 0..23, \<open>tm_min\<close> 0..59,
  \<open>tm_sec\<close> 0..61). The year is an unbounded integer: with a 64-bit \<^verbatim>\<open>time_t\<close> the
  platform's \<^verbatim>\<open>localtime\<close> returns years far beyond 9999.
\<close>

record struct_time =
  tm_year :: int
  tm_mon :: nat
  tm_mday :: nat
  tm_hour :: nat
  tm_min :: nat
  tm_sec :: nat

text \<open>
  One conversion specification. \<^verbatim>\<open>%Y\<close> is the year as a decimal number, with as many
  digits as it has (glibc does not pad or truncate it); \<^verbatim>\<open>%m %d %H %M %S\<close> are two-digit
  zero-padded fields. A character that is no directive of this model is copied with its
  percent sign.
\<close>

definition directive :: "char \<Rightarrow> struct_time \<Rightarrow> string" where
  "directive d t =
     (if d = CHR ''Y'' then int_repr (tm_year t)
      else if d = CHR ''m'' then pad2 (tm_mon t)
      else if d = CHR ''d'' then pad2 (tm_mday t)
      else if d = CHR ''H'' then pad2 (tm_hour t)
      else if d = CHR ''M'' then pad2 (tm_min t)
      else if d = CHR ''S'' then pad2 (tm_sec t)
      else if d = CHR ''%'' then ''%''
      else [CHR ''%'', d])"

fun strftime :: "string \<Rightarrow> struct_time \<Rightarrow> string" where
  "strftime [] t = []"
| "strftime [c] t = [c]"
| "strftime (c # d # fmt) t =
     (if c = CHR ''%'' then directive d t @ strftime fmt t else c # strftime (d # fmt) t)"

subsection \<open>\<^verbatim>\<open>posixpath\<close>: \<^verbatim>\<open>join\<close>, \<^verbatim>\<open>split\<close>, \<^verbatim>\<open>dirname\<close>\<close>

abbreviation sep :: char where
  "sep \<equiv> CHR ''/''"

text \<open>\<^verbatim>\<open>s.rstrip('/')\<close>\<close>

definition rstrip_sep :: "string \<Rightarrow> string" where
  "rstrip_sep s = rev (dropWhile (\<lambda>c. c = sep) (rev s))"

text \<open>
  \<^verbatim>\<open>
  def split(p):
      i = p.rfind(sep) + 1
      head, tail = p[:i], p[i:]
      if head and head != sep*len(head):
          head = head.rstrip(sep)
      return head, tail
  \<close>
\<close>

definition path_split :: "string \<Rightarrow> string \<times> string" where
  "path_split p =
     (let tail = rev (takeWhile (\<lambda>c. c \<noteq> sep) (rev p));
          head = rev (dropWhile (\<lambda>c. c \<noteq> sep) (rev p))
      in (if head \<noteq> [] \<and> \<not> list_all (\<lambda>c. c = sep) head then rstrip_sep head else head, tail))"

text \<open>\<^verbatim>\<open>dirname(p)\<close> is the head of \<^verbatim>\<open>split(p)\<close> (the library repeats the same code).\<close>

definition path_dirname :: "string \<Rightarrow> string" where
  "path_dirname p = fst (path_split p)"

text \<open>
  \<^verbatim>\<open>
  def join(a, *p):
      path = a
      for b in p:
          if b.startswith(sep) or not path:
              path = b
          elif path.endswith(sep):
              path += b
          else:
              path += sep + b
      return path
  \<close>
\<close>

definition join_step :: "string \<Rightarrow> string \<Rightarrow> string" where
  "join_step path b =
     (if (b \<noteq> [] \<and> hd b = sep) \<or> path = [] then b
      else if last path = sep then path @ b
      else path @ sep # b)"

definition path_join :: "string \<Rightarrow> string list \<Rightarrow> string" where
  "path_join a p = foldl join_step a p"

subsection \<open>\<^verbatim>\<open>json\<close>: values and the encoder\<close>

text \<open>
  The values the encoder is given here: integers, strings, and dictionaries with string
  keys (a Python \<^verbatim>\<open>dict\<close> keeps insertion order, so an association list).
\<close>

datatype json = JInt int | JStr string | JObj "(string \<times> json) list"

text \<open>
  \<^verbatim>\<open>encode_basestring_ascii\<close>: a character outside \<^verbatim>\<open>' '..'~'\<close>, a quote or a backslash is
  escaped; the named escapes first, \<^verbatim>\<open>\uXXXX\<close> for the rest.
\<close>

definition hex_char :: "nat \<Rightarrow> char" where
  "hex_char d = ''0123456789abcdef'' ! d"

definition plain_char :: "char \<Rightarrow> bool" where
  "plain_char c = (c \<noteq> CHR ''\"'' \<and> c \<noteq> CHR 0x5C \<and> 32 \<le> (of_char c :: nat) \<and> (of_char c :: nat) \<le> 126)"

definition escape_char :: "char \<Rightarrow> string" where
  "escape_char c =
     (if plain_char c then [c]
      else if c = CHR ''\"'' then [CHR 0x5C, CHR ''\"'']
      else if c = CHR 0x5C then [CHR 0x5C, CHR 0x5C]
      else if c = CHR 0x0A then [CHR 0x5C, CHR ''n'']
      else if c = CHR 0x0D then [CHR 0x5C, CHR ''r'']
      else if c = CHR 0x09 then [CHR 0x5C, CHR ''t'']
      else if c = CHR 0x0C then [CHR 0x5C, CHR ''f'']
      else if c = CHR 0x08 then [CHR 0x5C, CHR ''b'']
      else [CHR 0x5C, CHR ''u'', CHR ''0'', CHR ''0'',
            hex_char ((of_char c :: nat) div 16), hex_char ((of_char c :: nat) mod 16)])"

definition encode_basestring_ascii :: "string \<Rightarrow> string" where
  "encode_basestring_ascii s = CHR ''\"'' # concat (map escape_char s) @ [CHR ''\"'']"

text \<open>
  The encoder (\<^verbatim>\<open>_make_iterencode\<close>), with its chunks concatenated. \<open>indent\<close> is the
  \<^verbatim>\<open>indent\<close> argument (\<open>None\<close>, or the number of spaces per level), \<open>item_sep\<close> the item
  separator, \<open>level\<close> the current indentation level. The key separator is \<^verbatim>\<open>': '\<close> in both
  calls of \<^verbatim>\<open>main\<close>.
\<close>

definition newline_indent :: "nat option \<Rightarrow> nat \<Rightarrow> string" where
  "newline_indent indent level =
     (case indent of None \<Rightarrow> [] | Some n \<Rightarrow> CHR 0x0A # replicate (n * level) CHR '' '')"

fun iterencode :: "nat option \<Rightarrow> string \<Rightarrow> nat \<Rightarrow> json \<Rightarrow> string"
  and iterencode_items :: "nat option \<Rightarrow> string \<Rightarrow> nat \<Rightarrow> bool \<Rightarrow> (string \<times> json) list \<Rightarrow> string"
where
  "iterencode indent item_sep level (JInt i) = int_repr i"
| "iterencode indent item_sep level (JStr s) = encode_basestring_ascii s"
| "iterencode indent item_sep level (JObj dct) =
     (if dct = [] then ''{}''
      else ''{'' @ newline_indent indent (Suc level)
           @ iterencode_items indent item_sep (Suc level) True dct
           @ newline_indent indent level @ ''}'')"
| "iterencode_items indent item_sep level first [] = []"
| "iterencode_items indent item_sep level first ((key, v) # items) =
     (if first then [] else item_sep @ newline_indent indent level)
     @ encode_basestring_ascii key @ '': '' @ iterencode indent item_sep level v
     @ iterencode_items indent item_sep level False items"

text \<open>\<^verbatim>\<open>json.dumps(obj)\<close>: no indentation, item separator \<^verbatim>\<open>', '\<close>.\<close>

definition json_dumps :: "json \<Rightarrow> string" where
  "json_dumps obj = iterencode None '', '' 0 obj"

text \<open>
  \<^verbatim>\<open>json.dump(obj, fp, indent=2)\<close> writes these characters to \<^verbatim>\<open>fp\<close>: with an indent the
  item separator is \<^verbatim>\<open>','\<close>.
\<close>

definition json_dump_indent :: "nat \<Rightarrow> json \<Rightarrow> string" where
  "json_dump_indent n obj = iterencode (Some n) '','' 0 obj"

subsection \<open>\<^verbatim>\<open>json\<close>: the decoder\<close>

text \<open>Whitespace the decoder skips: space, tab, line feed, carriage return.\<close>

definition is_ws :: "char \<Rightarrow> bool" where
  "is_ws c = (c = CHR '' '' \<or> c = CHR 0x09 \<or> c = CHR 0x0A \<or> c = CHR 0x0D)"

definition skip_ws :: "string \<Rightarrow> string" where
  "skip_ws s = dropWhile is_ws s"

text \<open>
  \<^verbatim>\<open>py_scanstring\<close> (strict): the text after an opening quote, up to the closing quote.
  A control character is an error. An escape \<^verbatim>\<open>\uXXXX\<close> is decoded when its code point
  is below 256, the characters this model has; beyond that the result is \<open>None\<close>.
\<close>

definition hex_val :: "char \<Rightarrow> nat option" where
  "hex_val c =
     (if is_digit c then Some (of_char c - 48)
      else if c \<in> set ''abcdef'' then Some (of_char c - 87)
      else if c \<in> set ''ABCDEF'' then Some (of_char c - 55)
      else None)"

definition unescape :: "char \<Rightarrow> char option" where
  "unescape e =
     (if e = CHR ''\"'' \<or> e = CHR 0x5C \<or> e = sep then Some e
      else if e = CHR ''b'' then Some (CHR 0x08)
      else if e = CHR ''f'' then Some (CHR 0x0C)
      else if e = CHR ''n'' then Some (CHR 0x0A)
      else if e = CHR ''r'' then Some (CHR 0x0D)
      else if e = CHR ''t'' then Some (CHR 0x09)
      else None)"

definition unescape_u :: "string \<Rightarrow> char option" where
  "unescape_u h =
     (case map hex_val h of
        [Some a, Some b, Some c, Some d] \<Rightarrow>
          if a = 0 \<and> b = 0 then Some (char_of (16 * c + d)) else None
      | _ \<Rightarrow> None)"

fun scanstring :: "string \<Rightarrow> (string \<times> string) option" where
  "scanstring [] = None"
| "scanstring (c # cs) =
     (if c = CHR ''\"'' then Some ([], cs)
      else if c = CHR 0x5C then
        (case cs of
           [] \<Rightarrow> None
         | e # r \<Rightarrow>
             if e = CHR ''u'' then
               (case unescape_u (take 4 r) of
                  None \<Rightarrow> None
                | Some x \<Rightarrow>
                    (case scanstring (drop 4 r) of
                       None \<Rightarrow> None
                     | Some (s, rest) \<Rightarrow> Some (x # s, rest)))
             else
               (case unescape e of
                  None \<Rightarrow> None
                | Some x \<Rightarrow>
                    (case scanstring r of
                       None \<Rightarrow> None
                     | Some (s, rest) \<Rightarrow> Some (x # s, rest))))
      else if (of_char c :: nat) < 32 then None
      else (case scanstring cs of None \<Rightarrow> None | Some (s, rest) \<Rightarrow> Some (c # s, rest)))"

text \<open>
  Numbers (\<^verbatim>\<open>NUMBER_RE\<close>): an optional minus sign, then \<^verbatim>\<open>0\<close> or a digit sequence that
  does not start with \<^verbatim>\<open>0\<close>. A fraction or an exponent makes a float, which is outside
  the values of this model: \<open>None\<close>.
\<close>

definition digits_val :: "string \<Rightarrow> nat" where
  "digits_val ds = foldl (\<lambda>a c. 10 * a + (of_char c - 48)) 0 ds"

definition scan_nat :: "string \<Rightarrow> (nat \<times> string) option" where
  "scan_nat s =
     (case s of
        [] \<Rightarrow> None
      | c # r \<Rightarrow>
          if c = CHR ''0'' then Some (0, r)
          else if is_digit c then Some (digits_val (takeWhile is_digit s), dropWhile is_digit s)
          else None)"

definition scan_int :: "string \<Rightarrow> (int \<times> string) option" where
  "scan_int s =
     (case (if s \<noteq> [] \<and> hd s = CHR ''-'' then scan_nat (tl s) else scan_nat s) of
        None \<Rightarrow> None
      | Some (n, rest) \<Rightarrow>
          if rest \<noteq> [] \<and> hd rest \<in> set ''.eE'' then None
          else Some (if s \<noteq> [] \<and> hd s = CHR ''-'' then - int n else int n, rest))"

text \<open>
  The decoder builds a \<^verbatim>\<open>dict\<close> from the pairs it reads: a repeated key keeps its place
  and takes the later value.
\<close>

fun dict_set :: "string \<Rightarrow> json \<Rightarrow> (string \<times> json) list \<Rightarrow> (string \<times> json) list" where
  "dict_set k v [] = [(k, v)]"
| "dict_set k v ((k', v') # kvs) =
     (if k = k' then (k, v) # kvs else (k', v') # dict_set k v kvs)"

text \<open>
  \<^verbatim>\<open>scan_once\<close> and \<^verbatim>\<open>JSONObject\<close>. Each decodes a value at the start of the text and
  returns it with the rest of the text. The first argument bounds the number of nested
  calls; \<open>json_loads\<close> starts with more than the length of the text. Arrays, floats,
  \<^verbatim>\<open>true\<close>, \<^verbatim>\<open>false\<close> and \<^verbatim>\<open>null\<close> are not values of this model: on them the result is
  \<open>None\<close>, as on a text that is not JSON.
\<close>

fun scan_once :: "nat \<Rightarrow> string \<Rightarrow> (json \<times> string) option"
  and scan_object :: "nat \<Rightarrow> (string \<times> json) list \<Rightarrow> string \<Rightarrow> (json \<times> string) option"
where
  "scan_once 0 s = None"
| "scan_once (Suc n) [] = None"
| "scan_once (Suc n) (c # r) =
     (if c = CHR ''\"'' then
        (case scanstring r of None \<Rightarrow> None | Some (x, rest) \<Rightarrow> Some (JStr x, rest))
      else if c = CHR ''{'' then
        (if skip_ws r \<noteq> [] \<and> hd (skip_ws r) = CHR ''}'' then Some (JObj [], tl (skip_ws r))
         else scan_object n [] (skip_ws r))
      else (case scan_int (c # r) of None \<Rightarrow> None | Some (i, rest) \<Rightarrow> Some (JInt i, rest)))"
| "scan_object 0 pairs s = None"
| "scan_object (Suc n) pairs [] = None"
| "scan_object (Suc n) pairs (c # r) =
     (if c \<noteq> CHR ''\"'' then None
      else
        (case scanstring r of
           None \<Rightarrow> None
         | Some (key, r1) \<Rightarrow>
             (case skip_ws r1 of
                [] \<Rightarrow> None
              | d # r2 \<Rightarrow>
                  if d \<noteq> CHR '':'' then None
                  else
                    (case scan_once n (skip_ws r2) of
                       None \<Rightarrow> None
                     | Some (v, r3) \<Rightarrow>
                         (case skip_ws r3 of
                            [] \<Rightarrow> None
                          | e # r4 \<Rightarrow>
                              if e = CHR ''}'' then Some (JObj (dict_set key v pairs), r4)
                              else if e = CHR '','' then
                                scan_object n (dict_set key v pairs) (skip_ws r4)
                              else None)))))"

text \<open>
  \<^verbatim>\<open>json.loads(s)\<close>: one value, with whitespace before and after it and nothing else.
\<close>

definition json_loads :: "string \<Rightarrow> json option" where
  "json_loads s =
     (case scan_once (Suc (length s)) (skip_ws s) of
        None \<Rightarrow> None
      | Some (v, rest) \<Rightarrow> if skip_ws rest = [] then Some v else None)"

subsection \<open>The file system\<close>

text \<open>
  The operating system's side of the calls, as far as \<^verbatim>\<open>main\<close> can observe it. A file
  system maps canonical paths (the list of names from the root) to entries: a directory,
  or a regular file with its contents. Links are not modelled, nor is the permission to
  search a directory. The rest of the world is what decides whether a call fails:
  \<^item> \<open>cwd\<close> is the working directory;
  \<^item> \<open>denied\<close> is the set of canonical paths at which the system refuses to create an
    entry or to open one for writing (missing permission, read-only mount);
  \<^item> \<open>write_fails\<close> is the set of canonical paths of files that can be opened but whose
    device refuses the data written to them (full disk, I/O error);
  \<^item> \<open>stdout\<close> is the text the program has written to \<^verbatim>\<open>sys.stdout\<close>; \<open>stdout_fails\<close>
    says that the device behind standard output refuses data (closed pipe, full disk),
    \<open>stdout_buffered\<close> that the stream holds the text of \<^verbatim>\<open>print\<close> back and passes it on
    when the interpreter exits, as it does for a pipe or a file unless the interpreter
    runs with \<^verbatim>\<open>-u\<close>.
  \<open>OSError\<close> stands for an \<^verbatim>\<open>OSError\<close> that is none of the named subclasses (\<^verbatim>\<open>ENOSPC\<close>,
  \<^verbatim>\<open>EIO\<close>, \<^verbatim>\<open>EPIPE\<close>).
\<close>

datatype error =
  FileExistsError | FileNotFoundError | NotADirectoryError | IsADirectoryError | PermissionError
  | OSError

datatype entry = Dir | File string

record world =
  fs :: "string list \<rightharpoonup> entry"
  cwd :: "string list"
  denied :: "string list set"
  write_fails :: "string list set"
  stdout :: string
  stdout_fails :: bool
  stdout_buffered :: bool

text \<open>\<^verbatim>\<open>p.split('/')\<close>, and the components of a path: its non-empty pieces.\<close>

fun split_sep :: "string \<Rightarrow> string list" where
  "split_sep [] = [[]]"
| "split_sep (c # cs) =
     (if c = sep then [] # split_sep cs
      else (case split_sep cs of [] \<Rightarrow> [[c]] | x # xs \<Rightarrow> (c # x) # xs))"

definition components :: "string \<Rightarrow> string list" where
  "components p = filter (\<lambda>x. x \<noteq> []) (split_sep p)"

text \<open>
  Path resolution: from the canonical path \<open>cur\<close>, follow the components one by one.
  Every position a component is followed from must be a directory; \<^verbatim>\<open>.\<close> stays,
  \<^verbatim>\<open>..\<close> goes to the parent (the root is its own parent). The position reached after the
  last component need not exist.
\<close>

fun walk :: "(string list \<rightharpoonup> entry) \<Rightarrow> string list \<Rightarrow> string list \<Rightarrow> error + string list" where
  "walk t cur [] = Inr cur"
| "walk t cur (c # cs) =
     (case t cur of
        None \<Rightarrow> Inl FileNotFoundError
      | Some (File _) \<Rightarrow> Inl NotADirectoryError
      | Some Dir \<Rightarrow>
          walk t (if c = ''.'' then cur else if c = ''..'' then butlast cur else cur @ [c]) cs)"

definition resolve :: "world \<Rightarrow> string \<Rightarrow> error + string list" where
  "resolve w p =
     (if p = [] then Inl FileNotFoundError
      else walk (fs w) (if hd p = sep then [] else cwd w) (components p))"

text \<open>\<^verbatim>\<open>os.stat\<close>, and \<^verbatim>\<open>os.path.exists\<close> and \<^verbatim>\<open>os.path.isdir\<close>, which catch its errors.\<close>

definition stat :: "world \<Rightarrow> string \<Rightarrow> error + entry" where
  "stat w p =
     (case resolve w p of
        Inl e \<Rightarrow> Inl e
      | Inr c \<Rightarrow> (case fs w c of None \<Rightarrow> Inl FileNotFoundError | Some x \<Rightarrow> Inr x))"

definition path_exists :: "world \<Rightarrow> string \<Rightarrow> bool" where
  "path_exists w p = (case stat w p of Inl e \<Rightarrow> False | Inr x \<Rightarrow> True)"

definition path_isdir :: "world \<Rightarrow> string \<Rightarrow> bool" where
  "path_isdir w p = (case stat w p of Inr Dir \<Rightarrow> True | _ \<Rightarrow> False)"

text \<open>\<^verbatim>\<open>os.mkdir(p)\<close>: the result is the exception raised, if any, and the world after.\<close>

definition mkdir :: "string \<Rightarrow> world \<Rightarrow> error option \<times> world" where
  "mkdir p w =
     (case resolve w p of
        Inl e \<Rightarrow> (Some e, w)
      | Inr c \<Rightarrow>
          if fs w c \<noteq> None then (Some FileExistsError, w)
          else if c \<in> denied w then (Some PermissionError, w)
          else (None, w\<lparr>fs := (fs w)(c \<mapsto> Dir)\<rparr>))"

text \<open>
  \<^verbatim>\<open>os.makedirs\<close> (CPython, \<^verbatim>\<open>Lib/os.py\<close>):
  \<^verbatim>\<open>
  def makedirs(name, mode=0o777, exist_ok=False):
      head, tail = path.split(name)
      if not tail:
          head, tail = path.split(head)
      if head and tail and not path.exists(head):
          try:
              makedirs(head, exist_ok=exist_ok)
          except FileExistsError:
              pass
          if tail == curdir:
              return
      try:
          mkdir(name, mode)
      except OSError:
          if not exist_ok or not path.isdir(name):
              raise
  \<close>
  Every error of this model is an \<^verbatim>\<open>OSError\<close>.
\<close>

definition makedirs_parts :: "string \<Rightarrow> string \<times> string" where
  "makedirs_parts name =
     (let (head, tail) = path_split name
      in if tail = [] then path_split head else (head, tail))"

definition mkdir_exist_ok :: "string \<Rightarrow> bool \<Rightarrow> world \<Rightarrow> error option \<times> world" where
  "mkdir_exist_ok name exist_ok w =
     (case mkdir name w of
        (None, w') \<Rightarrow> (None, w')
      | (Some e, w') \<Rightarrow>
          if \<not> exist_ok \<or> \<not> path_isdir w' name then (Some e, w') else (None, w'))"

lemma rstrip_sep_le: "length (rstrip_sep h) \<le> length h"
  using length_dropWhile_le [of "\<lambda>c. c = sep" "rev h"] by (simp add: rstrip_sep_def)

lemma path_split_lengths:
  "length (rev (dropWhile (\<lambda>c. c \<noteq> sep) (rev p))) + length (snd (path_split p)) = length p"
proof -
  have "length (takeWhile (\<lambda>c. c \<noteq> sep) (rev p) @ dropWhile (\<lambda>c. c \<noteq> sep) (rev p))
          = length (rev p)"
    by (simp only: takeWhile_dropWhile_id)
  then have "length (takeWhile (\<lambda>c. c \<noteq> sep) (rev p))
               + length (dropWhile (\<lambda>c. c \<noteq> sep) (rev p)) = length p"
    by (simp only: length_append length_rev)
  moreover have "snd (path_split p) = rev (takeWhile (\<lambda>c. c \<noteq> sep) (rev p))"
    by (simp add: path_split_def Let_def)
  ultimately show ?thesis
    by (simp only: length_rev)
qed

lemma path_split_head_raw:
  "length (fst (path_split p)) \<le> length (rev (dropWhile (\<lambda>c. c \<noteq> sep) (rev p)))"
  using rstrip_sep_le [of "rev (dropWhile (\<lambda>c. c \<noteq> sep) (rev p))"]
  by (simp add: path_split_def Let_def)

lemma path_split_head_le: "length (fst (path_split p)) \<le> length p"
  using path_split_head_raw [of p] path_split_lengths [of p] by linarith

lemma path_split_head_less:
  assumes "snd (path_split p) \<noteq> []"
  shows "length (fst (path_split p)) < length p"
proof -
  from assms have "0 < length (snd (path_split p))"
    by simp
  then show ?thesis
    using path_split_head_raw [of p] path_split_lengths [of p] by linarith
qed

lemma makedirs_parts_less:
  assumes "snd (makedirs_parts name) \<noteq> []"
  shows "length (fst (makedirs_parts name)) < length name"
proof (cases "snd (path_split name) = []")
  case True
  then have "makedirs_parts name = path_split (fst (path_split name))"
    by (simp add: makedirs_parts_def case_prod_beta)
  with assms have "length (fst (makedirs_parts name)) < length (fst (path_split name))"
    using path_split_head_less [of "fst (path_split name)"] by simp
  then show ?thesis
    using path_split_head_le [of name] by simp
next
  case False
  then have "makedirs_parts name = path_split name"
    by (simp add: makedirs_parts_def case_prod_beta)
  with assms show ?thesis
    using path_split_head_less [of name] by simp
qed

function makedirs :: "string \<Rightarrow> bool \<Rightarrow> world \<Rightarrow> error option \<times> world" where
  "makedirs name exist_ok w =
     (if fst (makedirs_parts name) \<noteq> [] \<and> snd (makedirs_parts name) \<noteq> []
         \<and> \<not> path_exists w (fst (makedirs_parts name))
      then
        (case makedirs (fst (makedirs_parts name)) exist_ok w of
           (r, w1) \<Rightarrow>
             if r \<noteq> None \<and> r \<noteq> Some FileExistsError then (r, w1)
             else if snd (makedirs_parts name) = ''.'' then (None, w1)
             else mkdir_exist_ok name exist_ok w1)
      else mkdir_exist_ok name exist_ok w)"
  by pat_completeness auto
termination
  by (relation "measure (\<lambda>(name, exist_ok, w). length name)")
    (auto simp: makedirs_parts_less)

declare makedirs.simps [simp del]

text \<open>
  \<^verbatim>\<open>open(p, "w")\<close>: the file is created, or truncated when it exists; the handle is the
  canonical path of the file.
\<close>

definition open_w :: "string \<Rightarrow> world \<Rightarrow> (error + string list) \<times> world" where
  "open_w p w =
     (case resolve w p of
        Inl e \<Rightarrow> (Inl e, w)
      | Inr c \<Rightarrow>
          if fs w c = Some Dir then (Inl IsADirectoryError, w)
          else if c \<in> denied w then (Inl PermissionError, w)
          else (Inr c, w\<lparr>fs := (fs w)(c \<mapsto> File [])\<rparr>))"

text \<open>
  Writing the text \<open>s\<close> to the open file \<open>f\<close> and closing it, which is what the \<^verbatim>\<open>with\<close>
  block does with the text of \<^verbatim>\<open>json.dump\<close>: the text is appended to the file. When the
  device refuses the data, \<^verbatim>\<open>OSError\<close> is raised (by the write, or by the flush when the
  block closes the file) and the file stays as \<^verbatim>\<open>open\<close> left it.
\<close>

definition file_write :: "string list \<Rightarrow> string \<Rightarrow> world \<Rightarrow> error option \<times> world" where
  "file_write f s w =
     (if f \<in> write_fails w then (Some OSError, w)
      else
        (case fs w f of
           Some (File old) \<Rightarrow> (None, w\<lparr>fs := (fs w)(f \<mapsto> File (old @ s))\<rparr>)
         | _ \<Rightarrow> (None, w)))"

text \<open>
  \<^verbatim>\<open>print(s)\<close>: the text and a newline, written to \<^verbatim>\<open>sys.stdout\<close>. An unbuffered stream
  passes them on at once, and \<^verbatim>\<open>print\<close> raises when the device refuses them; a buffered
  stream takes them without an error.
\<close>

definition print :: "string \<Rightarrow> world \<Rightarrow> error option \<times> world" where
  "print s w =
     (if stdout_fails w \<and> \<not> stdout_buffered w then (Some OSError, w)
      else (None, w\<lparr>stdout := stdout w @ s @ [CHR 0x0A]\<rparr>))"

subsection \<open>\<^verbatim>\<open>main\<close>\<close>

text \<open>
  \<^verbatim>\<open>main\<close> takes no argument and reads neither the command line nor the environment
  variables. What it depends on is the clock, \<^verbatim>\<open>__file__\<close> and the file system:
  \<open>now\<close> is the local time the clock reports when \<^verbatim>\<open>time.strftime\<close> is called, \<open>file\<close>
  the value of \<^verbatim>\<open>__file__\<close>. The result is the exception that leaves \<^verbatim>\<open>main\<close>, if any,
  and the world after the call. \<^verbatim>\<open>main\<close> has no \<^verbatim>\<open>try\<close>: an exception of a library call
  ends it at that line, also inside the \<^verbatim>\<open>with\<close> block, which closes the file and lets
  the exception pass.
\<close>

definition main :: "struct_time \<Rightarrow> string \<Rightarrow> world \<Rightarrow> error option \<times> world" where
  "main now file w =
     (let ts = strftime ''%Y%m%d-%H%M%S'' now;
          result = JObj [(''timestamp'', JStr ts), (''instances'', JInt 0),
                         (''resolved'', JInt 0), (''score'', JInt 0)];
          out_dir = path_join (path_dirname file) [''..'', ''..'', ''results'']
      in case makedirs out_dir True w of
           (Some e, w1) \<Rightarrow> (Some e, w1)
         | (None, w1) \<Rightarrow>
             (case open_w (path_join out_dir [''swebench-'' @ ts @ ''.json'']) w1 of
                (Inl e, w2) \<Rightarrow> (Some e, w2)
              | (Inr f, w2) \<Rightarrow>
                  (case file_write f (json_dump_indent 2 result) w2 of
                     (Some e, w3) \<Rightarrow> (Some e, w3)
                   | (None, w3) \<Rightarrow> print (json_dumps result) w3)))"


subsection \<open>The values \<^verbatim>\<open>main\<close> computes, by name\<close>

text \<open>
  The local variables of \<^verbatim>\<open>main\<close> and the arguments it passes on, as functions of the
  clock reading and of \<^verbatim>\<open>__file__\<close>. Lemma \<open>main_unfold\<close> below shows that \<open>main\<close> is the
  same function when written with these names.
\<close>

text \<open>\<^verbatim>\<open>ts\<close>\<close>

definition timestamp :: "struct_time \<Rightarrow> string" where
  "timestamp now = strftime ''%Y%m%d-%H%M%S'' now"

text \<open>\<^verbatim>\<open>result\<close>, for a given \<^verbatim>\<open>ts\<close>\<close>

definition result :: "string \<Rightarrow> json" where
  "result ts = JObj [(''timestamp'', JStr ts), (''instances'', JInt 0),
                     (''resolved'', JInt 0), (''score'', JInt 0)]"

text \<open>\<^verbatim>\<open>out_dir\<close>, and the path it extends: the directory the results directory is made in\<close>

definition out_dir :: "string \<Rightarrow> string" where
  "out_dir file = path_join (path_dirname file) [''..'', ''..'', ''results'']"

definition results_parent :: "string \<Rightarrow> string" where
  "results_parent file = path_join (path_dirname file) [''..'', ''..'']"

text \<open>The file name \<^verbatim>\<open>f"swebench-{ts}.json"\<close> and the path given to \<^verbatim>\<open>open\<close>\<close>

definition out_name :: "string \<Rightarrow> string" where
  "out_name ts = ''swebench-'' @ ts @ ''.json''"

definition out_file :: "string \<Rightarrow> string \<Rightarrow> string" where
  "out_file file ts = path_join (out_dir file) [out_name ts]"

text \<open>
  The world a completed call leaves, from the world \<open>w1\<close> after \<^verbatim>\<open>os.makedirs\<close>: the file \<open>f\<close>
  holds the indented text, standard output has one more line.
\<close>

definition finish :: "struct_time \<Rightarrow> string list \<Rightarrow> world \<Rightarrow> world" where
  "finish now f w1 =
     w1\<lparr>fs := (fs w1)(f \<mapsto> File (json_dump_indent 2 (result (timestamp now)))),
        stdout := stdout w1 @ json_dumps (result (timestamp now)) @ [CHR 0x0A]\<rparr>"

subsection \<open>Observations\<close>

text \<open>
  The pattern \<^verbatim>\<open>\d{8}-\d{6}\<close> as a full match: fifteen characters, eight digits, a hyphen,
  six digits.
\<close>

definition ts_pattern :: "string \<Rightarrow> bool" where
  "ts_pattern s =
     (length s = 15 \<and> list_all is_digit (take 8 s) \<and> s ! 8 = CHR ''-''
      \<and> list_all is_digit (drop 9 s))"

text \<open>The ranges of the fields of a \<^verbatim>\<open>struct_time\<close> other than the year.\<close>

definition valid_fields :: "struct_time \<Rightarrow> bool" where
  "valid_fields t =
     (1 \<le> tm_mon t \<and> tm_mon t \<le> 12 \<and> 1 \<le> tm_mday t \<and> tm_mday t \<le> 31
      \<and> tm_hour t \<le> 23 \<and> tm_min t \<le> 59 \<and> tm_sec t \<le> 61)"

text \<open>
  What reading the file at path \<open>p\<close> returns (\<open>None\<close> when there is no regular file), and
  what a call has written to standard output between two worlds.
\<close>

definition file_text :: "world \<Rightarrow> string \<Rightarrow> string option" where
  "file_text w p = (case stat w p of Inr (File s) \<Rightarrow> Some s | _ \<Rightarrow> None)"

definition printed :: "world \<Rightarrow> world \<Rightarrow> string" where
  "printed w w' = drop (length (stdout w)) (stdout w')"

text \<open>
  \<open>grows w w'\<close>: from \<open>w\<close> to \<open>w'\<close> nothing existing has changed and every new entry is a
  directory; the working directory, what the system refuses and standard output are the
  same.
\<close>

definition grows :: "world \<Rightarrow> world \<Rightarrow> bool" where
  "grows w w' =
     (cwd w' = cwd w \<and> denied w' = denied w \<and> write_fails w' = write_fails w
      \<and> stdout w' = stdout w \<and> stdout_fails w' = stdout_fails w
      \<and> stdout_buffered w' = stdout_buffered w
      \<and> (\<forall>p. fs w p \<noteq> None \<longrightarrow> fs w' p = fs w p)
      \<and> (\<forall>p. fs w p = None \<longrightarrow> fs w' p = None \<or> fs w' p = Some Dir))"



subsection \<open>A concrete run\<close>

text \<open>
  A checkout at \<^verbatim>\<open>/repo\<close> with the script in place and no results directory yet, and a
  clock reading. The theorems below are instantiated at this run.
\<close>

definition example_time :: struct_time where
  "example_time = \<lparr>tm_year = 2024, tm_mon = 3, tm_mday = 9, tm_hour = 7, tm_min = 5, tm_sec = 0\<rparr>"

definition example_file :: string where
  "example_file = ''/repo/harness/adapters/swebench/run.py''"

definition example_world :: world where
  "example_world =
     \<lparr>fs = [[] \<mapsto> Dir, [''repo''] \<mapsto> Dir, [''repo'', ''harness''] \<mapsto> Dir,
             [''repo'', ''harness'', ''adapters''] \<mapsto> Dir,
             [''repo'', ''harness'', ''adapters'', ''swebench''] \<mapsto> Dir,
             [''repo'', ''harness'', ''adapters'', ''swebench'', ''run.py''] \<mapsto> File ''import json''],
       cwd = [''repo''], denied = {}, write_fails = {}, stdout = [], stdout_fails = False,
       stdout_buffered = True\<rparr>"

text \<open>The world after that run, and a clock reading in the year 10000.\<close>

definition example_after :: world where
  "example_after =
     finish example_time [''repo'', ''harness'', ''results'', ''swebench-20240309-070500.json'']
       (example_world\<lparr>fs := (fs example_world)([''repo'', ''harness'', ''results''] \<mapsto> Dir)\<rparr>)"

definition far_time :: struct_time where
  "far_time = \<lparr>tm_year = 10000, tm_mon = 1, tm_mday = 1, tm_hour = 0, tm_min = 0, tm_sec = 0\<rparr>"

text \<open>The same clock one second later.\<close>

definition later_time :: struct_time where
  "later_time = example_time\<lparr>tm_sec := 1\<rparr>"


text \<open>
  The world after a second run at the same clock reading, and after a second run one
  second later, both started in the world the first run left.
\<close>

definition example_again :: world where
  "example_again =
     finish example_time [''repo'', ''harness'', ''results'', ''swebench-20240309-070500.json'']
       example_after"

definition example_later :: world where
  "example_later =
     finish later_time [''repo'', ''harness'', ''results'', ''swebench-20240309-070501.json'']
       example_after"










section \<open>Properties of the library functions\<close>

subsection \<open>The timestamp and the encoder\<close>

lemma strftime_format:
  "strftime ''%Y%m%d-%H%M%S'' t =
     int_repr (tm_year t) @ pad2 (tm_mon t) @ pad2 (tm_mday t) @ ''-''
       @ pad2 (tm_hour t) @ pad2 (tm_min t) @ pad2 (tm_sec t)"
  by (simp add: directive_def)

lemma is_digit_digit_char: "d < 10 \<Longrightarrow> is_digit (digit_char d)"
  unfolding is_digit_def digit_char_def by (rule nth_mem) simp

lemma dec_digits: "list_all is_digit (dec n)"
proof (induction n rule: dec.induct)
  case (1 n)
  show ?case
  proof (cases "n < 10")
    case True
    then show ?thesis
      by (subst dec.simps) (simp add: is_digit_digit_char)
  next
    case False
    with "1" show ?thesis
      by (subst dec.simps) (simp add: is_digit_digit_char)
  qed
qed

lemma dec_length_1: "n < 10 \<Longrightarrow> length (dec n) = 1"
  by (subst dec.simps) simp

lemma dec_length_step: "10 \<le> n \<Longrightarrow> length (dec n) = Suc (length (dec (n div 10)))"
  by (subst dec.simps) simp

lemma dec_length_2: "10 \<le> n \<Longrightarrow> n < 100 \<Longrightarrow> length (dec n) = 2"
  by (simp add: dec_length_step dec_length_1)

lemma dec_length_4: "1000 \<le> n \<Longrightarrow> n < 10000 \<Longrightarrow> length (dec n) = 4"
  by (simp add: dec_length_step dec_length_1)

lemma dec_nonempty: "dec n \<noteq> []"
  by (subst dec.simps) simp

lemma dec_length_ge_5: "10000 \<le> n \<Longrightarrow> 5 \<le> length (dec n)"
  using dec_nonempty [of "n div 10 div 10 div 10 div 10"]
  by (simp add: dec_length_step Suc_le_eq)

lemma dec_length_le_3:
  assumes "n < 1000"
  shows "length (dec n) \<le> 3"
proof -
  consider "n < 10" | "10 \<le> n" "n < 100" | "100 \<le> n" "n < 1000"
    using assms by linarith
  then show ?thesis
  proof cases
    case 1
    then show ?thesis by (simp add: dec_length_1)
  next
    case 2
    then show ?thesis by (simp add: dec_length_2)
  next
    case 3
    then show ?thesis by (simp add: dec_length_step dec_length_1)
  qed
qed

lemma pad2_digits: "list_all is_digit (pad2 n)"
  by (simp add: pad2_def dec_digits is_digit_def)

lemma pad2_length: "n < 100 \<Longrightarrow> length (pad2 n) = 2"
  by (simp add: pad2_def dec_length_1 dec_length_2)

lemma timestamp_eq:
  "timestamp t = int_repr (tm_year t) @ pad2 (tm_mon t) @ pad2 (tm_mday t) @ ''-''
       @ pad2 (tm_hour t) @ pad2 (tm_min t) @ pad2 (tm_sec t)"
  unfolding timestamp_def by (rule strftime_format)

lemma ts_pattern_shape:
  assumes "length y = 4" "list_all is_digit y"
    and "length a = 2" "list_all is_digit a" "length b = 2" "list_all is_digit b"
    and "length c = 2" "list_all is_digit c" "length d = 2" "list_all is_digit d"
    and "length e = 2" "list_all is_digit e"
  shows "ts_pattern (y @ a @ b @ ''-'' @ c @ d @ e)"
  using assms by (simp add: ts_pattern_def nth_append)

lemma ts_pattern_four_digit_year:
  assumes "valid_fields t" "1000 \<le> tm_year t" "tm_year t \<le> 9999"
  shows "ts_pattern (timestamp t)"
proof -
  from assms have y: "int_repr (tm_year t) = dec (nat (tm_year t))"
    by (simp add: int_repr_def)
  from assms have "length (dec (nat (tm_year t))) = 4"
    by (intro dec_length_4) auto
  with assms show ?thesis
    unfolding timestamp_eq y
    by (intro ts_pattern_shape) (simp_all add: dec_digits pad2_digits pad2_length valid_fields_def)
qed

lemma timestamp_length:
  "valid_fields t \<Longrightarrow> length (timestamp t) = length (int_repr (tm_year t)) + 11"
  by (simp add: timestamp_eq pad2_length valid_fields_def)

lemma ts_pattern_iff:
  assumes "valid_fields t"
  shows "ts_pattern (timestamp t) \<longleftrightarrow> 1000 \<le> tm_year t \<and> tm_year t \<le> 9999"
proof
  assume pat: "ts_pattern (timestamp t)"
  then have len: "length (int_repr (tm_year t)) = 4"
    using timestamp_length [OF assms] by (simp add: ts_pattern_def)
  show "1000 \<le> tm_year t \<and> tm_year t \<le> 9999"
  proof (rule ccontr)
    assume "\<not> ?thesis"
    then consider "tm_year t < 0" | "0 \<le> tm_year t" "tm_year t < 1000" | "10000 \<le> tm_year t"
      by linarith
    then show False
    proof cases
      case 1
      then obtain r where "timestamp t = CHR ''-'' # r"
        by (simp add: timestamp_eq int_repr_def)
      with pat show False
        by (simp add: ts_pattern_def is_digit_def)
    next
      case 2
      then have "length (dec (nat (tm_year t))) \<le> 3"
        by (intro dec_length_le_3) auto
      with 2 len show False
        by (simp add: int_repr_def)
    next
      case 3
      then have "5 \<le> length (dec (nat (tm_year t)))"
        by (intro dec_length_ge_5) auto
      with 3 len show False
        by (simp add: int_repr_def)
    qed
  qed
next
  assume "1000 \<le> tm_year t \<and> tm_year t \<le> 9999"
  with assms show "ts_pattern (timestamp t)"
    by (simp add: ts_pattern_four_digit_year)
qed

lemma ts_char_plain: "is_digit c \<or> c = CHR ''-'' \<Longrightarrow> plain_char c"
  by (auto simp: is_digit_def plain_char_def)

lemma int_repr_chars: "list_all (\<lambda>c. is_digit c \<or> c = CHR ''-'') (int_repr i)"
  using dec_digits [of "nat i"] dec_digits [of "nat (- i)"]
  by (auto simp: int_repr_def list_all_iff)

lemma pad2_chars: "list_all (\<lambda>c. is_digit c \<or> c = CHR ''-'') (pad2 n)"
  using pad2_digits [of n] by (auto simp: list_all_iff)

lemma timestamp_chars: "list_all (\<lambda>c. is_digit c \<or> c = CHR ''-'') (timestamp t)"
  by (simp add: timestamp_eq int_repr_chars pad2_chars)

lemma timestamp_plain: "list_all plain_char (timestamp t)"
  using timestamp_chars [of t] by (auto simp: list_all_iff intro: ts_char_plain)

lemma concat_escape_plain: "list_all plain_char s \<Longrightarrow> concat (map escape_char s) = s"
  by (induction s) (auto simp: escape_char_def)

lemma encode_plain:
  "list_all plain_char s \<Longrightarrow> encode_basestring_ascii s = CHR ''\"'' # s @ ''\"''"
  by (simp add: encode_basestring_ascii_def concat_escape_plain)

lemma scanstring_plain:
  "list_all plain_char s \<Longrightarrow> scanstring (s @ CHR ''\"'' # rest) = Some (s, rest)"
  by (induction s) (auto simp: plain_char_def)

lemma int_repr_0: "int_repr 0 = ''0''"
  by (simp add: int_repr_def dec.simps digit_char_def)

lemma dumps_result:
  assumes "list_all plain_char ts"
  shows "json_dumps (result ts) =
           ''{\"timestamp\": \"'' @ ts @ ''\", \"instances\": 0, \"resolved\": 0, \"score\": 0}''"
proof -
  have keys: "list_all plain_char ''timestamp''" "list_all plain_char ''instances''"
    "list_all plain_char ''resolved''" "list_all plain_char ''score''"
    by (simp_all add: plain_char_def)
  show ?thesis
    by (simp add: json_dumps_def result_def newline_indent_def int_repr_0
        encode_plain [OF assms] encode_plain [OF keys(1)] encode_plain [OF keys(2)]
        encode_plain [OF keys(3)] encode_plain [OF keys(4)])
qed

lemma dump_indent_result:
  assumes "list_all plain_char ts"
  shows "json_dump_indent 2 (result ts) =
           ''{\<newline>  \"timestamp\": \"'' @ ts @ ''\",\<newline>  \"instances\": 0,\<newline>  \"resolved\": 0,\<newline>  \"score\": 0\<newline>}''"
proof -
  have keys: "list_all plain_char ''timestamp''" "list_all plain_char ''instances''"
    "list_all plain_char ''resolved''" "list_all plain_char ''score''"
    by (simp_all add: plain_char_def)
  have two: "replicate 2 c = [c, c]" for c :: char
    by (simp add: numeral_2_eq_2)
  show ?thesis
    by (simp add: json_dump_indent_def result_def newline_indent_def int_repr_0 two
        encode_plain [OF assms] encode_plain [OF keys(1)] encode_plain [OF keys(2)]
        encode_plain [OF keys(3)] encode_plain [OF keys(4)])
qed

lemma scan_int_0: "rest = [] \<or> hd rest \<notin> set ''.eE'' \<Longrightarrow> scan_int (CHR ''0'' # rest) = Some (0, rest)"
  by (auto simp: scan_int_def scan_nat_def)

lemma scan_once_dumps:
  assumes "list_all plain_char ts"
  shows "scan_once (Suc (Suc (Suc (Suc (Suc (Suc k))))))
           (''{\"timestamp\": \"'' @ ts @ ''\", \"instances\": 0, \"resolved\": 0, \"score\": 0}'' @ rest)
         = Some (result ts, rest)"
  by (simp add: scanstring_plain [OF assms] skip_ws_def is_ws_def scan_int_0 result_def)

lemma scan_once_dump_indent:
  assumes "list_all plain_char ts"
  shows "scan_once (Suc (Suc (Suc (Suc (Suc (Suc k))))))
           (''{\<newline>  \"timestamp\": \"'' @ ts @ ''\",\<newline>  \"instances\": 0,\<newline>  \"resolved\": 0,\<newline>  \"score\": 0\<newline>}'' @ rest)
         = Some (result ts, rest)"
  by (simp add: scanstring_plain [OF assms] skip_ws_def is_ws_def scan_int_0 result_def)

lemma fuel_6: "5 \<le> n \<Longrightarrow> \<exists>k. Suc n = Suc (Suc (Suc (Suc (Suc (Suc k)))))"
  by (rule exI [of _ "n - 5"]) simp

lemma loads_print_result:
  assumes "list_all plain_char ts"
  shows "json_loads (json_dumps (result ts) @ ''\<newline>'') = Some (result ts)"
proof -
  let ?s = "json_dumps (result ts) @ ''\<newline>''"
  have s: "?s = ''{\"timestamp\": \"'' @ ts @ ''\", \"instances\": 0, \"resolved\": 0, \"score\": 0}'' @ ''\<newline>''"
    by (simp add: dumps_result [OF assms])
  have "5 \<le> length ?s"
    by (simp add: dumps_result [OF assms])
  then obtain k where k: "Suc (length ?s) = Suc (Suc (Suc (Suc (Suc (Suc k)))))"
    using fuel_6 by blast
  have ws: "skip_ws ?s = ?s"
    by (simp add: dumps_result [OF assms] skip_ws_def is_ws_def)
  have "scan_once (Suc (length ?s)) (skip_ws ?s) = Some (result ts, ''\<newline>'')"
    unfolding ws k by (subst s) (rule scan_once_dumps [OF assms])
  then show ?thesis
    by (simp add: json_loads_def skip_ws_def is_ws_def)
qed

lemma loads_dump_indent_result:
  assumes "list_all plain_char ts"
  shows "json_loads (json_dump_indent 2 (result ts)) = Some (result ts)"
proof -
  let ?s = "json_dump_indent 2 (result ts)"
  have s: "?s = ''{\<newline>  \"timestamp\": \"'' @ ts @ ''\",\<newline>  \"instances\": 0,\<newline>  \"resolved\": 0,\<newline>  \"score\": 0\<newline>}'' @ []"
    by (simp add: dump_indent_result [OF assms])
  have "5 \<le> length ?s"
    by (simp add: dump_indent_result [OF assms])
  then obtain k where k: "Suc (length ?s) = Suc (Suc (Suc (Suc (Suc (Suc k)))))"
    using fuel_6 by blast
  have ws: "skip_ws ?s = ?s"
    by (simp add: dump_indent_result [OF assms] skip_ws_def is_ws_def)
  have "scan_once (Suc (length ?s)) (skip_ws ?s) = Some (result ts, [])"
    unfolding ws k by (subst s) (rule scan_once_dump_indent [OF assms])
  then show ?thesis
    by (simp add: json_loads_def skip_ws_def)
qed

subsection \<open>Paths and the file system\<close>

lemma results_parent_cases:
  "results_parent file =
     (if path_dirname file = [] then ''../..''
      else if last (path_dirname file) = sep then path_dirname file @ ''../..''
      else path_dirname file @ ''/../..'')"
  by (simp add: results_parent_def path_join_def join_step_def)

lemma results_parent_last: "results_parent file \<noteq> [] \<and> last (results_parent file) = CHR ''.''"
  by (simp add: results_parent_cases)

lemma out_dir_eq: "out_dir file = results_parent file @ ''/results''"
  using results_parent_last [of "file"]
  by (simp add: out_dir_def results_parent_def path_join_def join_step_def)

lemma out_dir_last: "out_dir file \<noteq> [] \<and> last (out_dir file) = CHR ''s''"
  by (simp add: out_dir_eq)

lemma out_file_eq: "out_file file ts = out_dir file @ sep # out_name ts"
  using out_dir_last [of "file"]
  by (simp add: out_file_def path_join_def join_step_def out_name_def)

lemma path_split_simple:
  assumes "h \<noteq> []" "last h \<noteq> sep" "sep \<notin> set t"
  shows "path_split (h @ sep # t) = (h, t)"
proof -
  have t: "takeWhile (\<lambda>c. c \<noteq> sep) (rev t @ sep # rev h) = rev t"
    using assms(3) by (simp add: takeWhile_append)
  have d: "dropWhile (\<lambda>c. c \<noteq> sep) (rev t @ sep # rev h) = sep # rev h"
    using assms(3) by (simp add: dropWhile_append)
  have "rev h \<noteq> []" "hd (rev h) \<noteq> sep"
    using assms(1,2) by (simp_all add: hd_rev)
  then have s: "dropWhile (\<lambda>c. c = sep) (rev h) = rev h"
    by (cases "rev h") auto
  have n: "\<not> list_all (\<lambda>c. c = sep) (h @ [sep])"
    using assms(1,2) last_in_set by (fastforce simp: list_all_iff)
  have r: "rev (h @ sep # t) = rev t @ sep # rev h"
    by simp
  have "rstrip_sep (h @ [sep]) = h"
    by (simp add: rstrip_sep_def s)
  then show ?thesis
    unfolding path_split_def Let_def r t d using n by simp
qed

lemma makedirs_parts_out_dir: "makedirs_parts (out_dir file) = (results_parent file, ''results'')"
proof -
  have "path_split (out_dir file) = (results_parent file, ''results'')"
    unfolding out_dir_eq using results_parent_last [of "file"]
    by (intro path_split_simple [of "results_parent file" "''results''", simplified]) auto
  then show ?thesis
    by (simp add: makedirs_parts_def)
qed

lemma split_sep_nonempty: "split_sep s \<noteq> []"
  by (induction s) (auto split: list.splits)

lemma split_sep_append: "split_sep (a @ sep # b) = split_sep a @ split_sep b"
  using split_sep_nonempty by (induction a) (auto split: list.splits)

lemma components_append: "components (a @ sep # b) = components a @ components b"
  by (simp add: components_def split_sep_append)

lemma split_sep_no_sep: "sep \<notin> set s \<Longrightarrow> split_sep s = [s]"
  by (induction s) auto

lemma components_name: "sep \<notin> set s \<Longrightarrow> s \<noteq> [] \<Longrightarrow> components s = [s]"
  by (simp add: components_def split_sep_no_sep)

lemma grows_refl: "grows w w"
  by (simp add: grows_def)

lemma grows_trans: "grows w w1 \<Longrightarrow> grows w1 w2 \<Longrightarrow> grows w w2"
  unfolding grows_def by (metis option.distinct(1))

lemma walk_append:
  "walk t cur (cs @ ds) = (case walk t cur cs of Inl e \<Rightarrow> Inl e | Inr c \<Rightarrow> walk t c ds)"
  by (induction cs arbitrary: cur) (auto split: option.splits entry.splits)

lemma walk_mono:
  assumes "\<And>p. t p = Some Dir \<Longrightarrow> t' p = Some Dir"
  shows "walk t cur cs = Inr c \<Longrightarrow> walk t' cur cs = Inr c"
proof (induction cs arbitrary: cur)
  case Nil
  then show ?case by simp
next
  case (Cons a cs)
  from Cons.prems have d: "t cur = Some Dir"
    by (auto split: option.splits entry.splits)
  then have "t' cur = Some Dir"
    by (rule assms)
  with Cons d show ?case
    by simp
qed

lemma walk_single:
  assumes "name \<noteq> ''.''" "name \<noteq> ''..''"
  shows "walk t pc [name] =
           (case t pc of
              None \<Rightarrow> Inl FileNotFoundError
            | Some (File x) \<Rightarrow> Inl NotADirectoryError
            | Some Dir \<Rightarrow> Inr (pc @ [name]))"
  using assms by (simp split: option.splits entry.splits)

lemma resolve_child:
  assumes "p \<noteq> []" "sep \<notin> set name" "name \<noteq> []" "name \<noteq> ''.''" "name \<noteq> ''..''"
  shows "resolve w (p @ sep # name) =
           (case resolve w p of
              Inl e \<Rightarrow> Inl e
            | Inr pc \<Rightarrow>
                (case fs w pc of
                   None \<Rightarrow> Inl FileNotFoundError
                 | Some (File x) \<Rightarrow> Inl NotADirectoryError
                 | Some Dir \<Rightarrow> Inr (pc @ [name])))"
proof -
  have c: "components (p @ sep # name) = components p @ [name]"
    using assms(2,3) by (simp add: components_append components_name)
  have h: "hd (p @ sep # name) = hd p"
    using assms(1) by simp
  show ?thesis
    using assms(1)
    by (simp add: resolve_def c h walk_append walk_single [OF assms(4,5)] del: walk.simps
        split: sum.splits)
qed

lemma resolve_mono:
  assumes "\<And>q. fs w q = Some Dir \<Longrightarrow> fs w' q = Some Dir" "cwd w' = cwd w"
  shows "resolve w p = Inr c \<Longrightarrow> resolve w' p = Inr c"
  using walk_mono [of "fs w" "fs w'", OF assms(1)] assms(2)
  by (auto simp: resolve_def split: if_splits)


lemma mkdir_None:
  "mkdir p w = (None, w') \<longleftrightarrow>
     (\<exists>c. resolve w p = Inr c \<and> fs w c = None \<and> c \<notin> denied w \<and> w' = w\<lparr>fs := (fs w)(c \<mapsto> Dir)\<rparr>)"
  by (auto simp: mkdir_def split: sum.splits)

lemma mkdir_Some: "mkdir p w = (Some e, w') \<Longrightarrow> w' = w"
  by (auto simp: mkdir_def split: sum.splits if_splits)

lemma mkdir_grows: "mkdir p w = (r, w') \<Longrightarrow> grows w w'"
proof (cases r)
  case None
  assume "mkdir p w = (r, w')"
  with None show ?thesis
    by (auto simp: mkdir_None grows_def)
next
  case (Some e)
  assume "mkdir p w = (r, w')"
  with Some show ?thesis
    using mkdir_Some grows_refl by blast
qed

lemma mkdir_exist_ok_grows: "mkdir_exist_ok name ok w = (r, w') \<Longrightarrow> grows w w'"
  using mkdir_grows [of name w]
  by (auto simp: mkdir_exist_ok_def split: prod.splits option.splits if_splits)

lemma makedirs_grows: "makedirs name ok w = (r, w') \<Longrightarrow> grows w w'"
proof (induction name ok w arbitrary: r w' rule: makedirs.induct)
  case (1 name exist_ok w)
  show ?case
  proof (cases "fst (makedirs_parts name) \<noteq> [] \<and> snd (makedirs_parts name) \<noteq> []
         \<and> \<not> path_exists w (fst (makedirs_parts name))")
    case False
    with "1.prems" have "mkdir_exist_ok name exist_ok w = (r, w')"
      by (subst (asm) makedirs.simps) simp
    then show ?thesis
      by (rule mkdir_exist_ok_grows)
  next
    case True
    obtain r1 w1 where rec: "makedirs (fst (makedirs_parts name)) exist_ok w = (r1, w1)"
      by (cases "makedirs (fst (makedirs_parts name)) exist_ok w")
    from True rec have g1: "grows w w1"
      using "1.IH" by blast
    from "1.prems" True rec have
      "(if r1 \<noteq> None \<and> r1 \<noteq> Some FileExistsError then (r1, w1)
        else if snd (makedirs_parts name) = ''.'' then (None, w1)
        else mkdir_exist_ok name exist_ok w1) = (r, w')"
      by (subst (asm) makedirs.simps) simp
    then have "w' = w1 \<or> (\<exists>r'. mkdir_exist_ok name exist_ok w1 = (r', w'))"
      by (auto split: if_splits)
    then have "grows w1 w'"
      using mkdir_exist_ok_grows grows_refl by blast
    with g1 show ?thesis
      by (rule grows_trans)
  qed
qed

lemma path_isdir_iff: "path_isdir w p \<longleftrightarrow> (\<exists>c. resolve w p = Inr c \<and> fs w c = Some Dir)"
  by (auto simp: path_isdir_def stat_def split: sum.splits option.splits entry.splits)

lemma path_exists_iff: "path_exists w p \<longleftrightarrow> (\<exists>c. resolve w p = Inr c \<and> fs w c \<noteq> None)"
  by (auto simp: path_exists_def stat_def split: sum.splits option.splits)

lemma resolve_out_dir:
  "resolve w (out_dir file) =
     (case resolve w (results_parent file) of
        Inl e \<Rightarrow> Inl e
      | Inr pc \<Rightarrow>
          (case fs w pc of
             None \<Rightarrow> Inl FileNotFoundError
           | Some (File x) \<Rightarrow> Inl NotADirectoryError
           | Some Dir \<Rightarrow> Inr (pc @ [''results''])))"
  unfolding out_dir_eq using results_parent_last [of "file"]
  by (intro resolve_child [of "results_parent file" "''results''", simplified]) simp

lemma out_name_ok:
  assumes "sep \<notin> set ts"
  shows "sep \<notin> set (out_name ts)" "out_name ts \<noteq> []" "out_name ts \<noteq> ''.''" "out_name ts \<noteq> ''..''"
  using assms by (simp_all add: out_name_def)

lemma resolve_out_file:
  assumes "sep \<notin> set ts"
  shows "resolve w (out_file file ts) =
     (case resolve w (out_dir file) of
        Inl e \<Rightarrow> Inl e
      | Inr dc \<Rightarrow>
          (case fs w dc of
             None \<Rightarrow> Inl FileNotFoundError
           | Some (File x) \<Rightarrow> Inl NotADirectoryError
           | Some Dir \<Rightarrow> Inr (dc @ [out_name ts])))"
  unfolding out_file_eq using out_dir_last [of "file"] out_name_ok [OF assms]
  by (intro resolve_child) simp_all

lemma timestamp_no_sep: "sep \<notin> set (timestamp now)"
  using timestamp_chars [of now] by (auto simp: list_all_iff is_digit_def)

lemma isdir_out_dir_parent:
  assumes "path_isdir w (out_dir file)"
  shows "path_exists w (results_parent file)"
  using assms unfolding path_isdir_iff path_exists_iff resolve_out_dir
  by (auto split: sum.splits option.splits entry.splits)

lemma makedirs_out_dir:
  assumes "path_exists w (results_parent file)"
  shows "makedirs (out_dir file) ok w = mkdir_exist_ok (out_dir file) ok w"
  using assms by (subst makedirs.simps) (simp add: makedirs_parts_out_dir)

lemma makedirs_out_dir_existing:
  assumes "path_isdir w (out_dir file)"
  shows "makedirs (out_dir file) True w = (None, w)"
proof -
  from assms obtain c where c: "resolve w (out_dir file) = Inr c" "fs w c = Some Dir"
    by (auto simp: path_isdir_iff)
  then have "mkdir (out_dir file) w = (Some FileExistsError, w)"
    by (simp add: mkdir_def)
  with assms have "mkdir_exist_ok (out_dir file) True w = (None, w)"
    by (simp add: mkdir_exist_ok_def)
  then show ?thesis
    using makedirs_out_dir [OF isdir_out_dir_parent [OF assms]] by simp
qed

lemma mkdir_exist_ok_isdir:
  assumes "mkdir_exist_ok name True w = (None, w')"
  shows "path_isdir w' name"
proof (cases "mkdir name w")
  case (Pair r w1)
  show ?thesis
  proof (cases r)
    case None
    with Pair assms have w': "mkdir name w = (None, w')"
      by (simp add: mkdir_exist_ok_def)
    then obtain c where c: "resolve w name = Inr c" "w' = w\<lparr>fs := (fs w)(c \<mapsto> Dir)\<rparr>" "fs w c = None"
      by (auto simp: mkdir_None)
    have "resolve w' name = Inr c"
      using c(1) by (rule resolve_mono [rotated 2]) (auto simp: c)
    then show ?thesis
      by (auto simp: path_isdir_iff c(2))
  next
    case (Some e)
    with Pair assms show ?thesis
      by (auto simp: mkdir_exist_ok_def split: if_splits)
  qed
qed

lemma makedirs_out_dir_isdir:
  assumes "makedirs (out_dir file) True w = (None, w')"
  shows "path_isdir w' (out_dir file)"
proof -
  have "\<exists>w1. mkdir_exist_ok (out_dir file) True w1 = (None, w')"
    using assms
    by (subst (asm) makedirs.simps)
      (auto simp: makedirs_parts_out_dir split: if_splits prod.splits)
  then show ?thesis
    using mkdir_exist_ok_isdir by blast
qed

lemma makedirs_out_dir_creates:
  assumes "resolve w (results_parent file) = Inr pc" "fs w pc = Some Dir"
    and "fs w (pc @ [''results'']) = None" "pc @ [''results''] \<notin> denied w"
  shows "makedirs (out_dir file) True w = (None, w\<lparr>fs := (fs w)(pc @ [''results''] \<mapsto> Dir)\<rparr>)"
proof -
  have "path_exists w (results_parent file)"
    using assms(1,2) by (auto simp: path_exists_iff)
  moreover have "resolve w (out_dir file) = Inr (pc @ [''results''])"
    using assms(1,2) by (simp add: resolve_out_dir)
  then have "mkdir (out_dir file) w = (None, w\<lparr>fs := (fs w)(pc @ [''results''] \<mapsto> Dir)\<rparr>)"
    using assms(3,4) by (simp add: mkdir_def)
  ultimately show ?thesis
    by (simp add: makedirs_out_dir mkdir_exist_ok_def)
qed

lemma main_unfold:
  "main now file w =
     (case makedirs (out_dir file) True w of
        (Some e, w1) \<Rightarrow> (Some e, w1)
      | (None, w1) \<Rightarrow>
          (case open_w (out_file file (timestamp now)) w1 of
             (Inl e, w2) \<Rightarrow> (Some e, w2)
           | (Inr f, w2) \<Rightarrow>
               (case file_write f (json_dump_indent 2 (result (timestamp now))) w2 of
                  (Some e, w3) \<Rightarrow> (Some e, w3)
                | (None, w3) \<Rightarrow> print (json_dumps (result (timestamp now))) w3)))"
  unfolding main_def Let_def out_dir_def out_file_def out_name_def timestamp_def result_def
  by (rule refl)

lemma open_w_Inr:
  "open_w p w = (Inr f, w2) \<longleftrightarrow>
     (resolve w p = Inr f \<and> fs w f \<noteq> Some Dir \<and> f \<notin> denied w
      \<and> w2 = w\<lparr>fs := (fs w)(f \<mapsto> File [])\<rparr>)"
  by (auto simp: open_w_def split: sum.splits)

lemma file_write_opened:
  "file_write f txt (w\<lparr>fs := (fs w)(f \<mapsto> File [])\<rparr>) =
     (if f \<in> write_fails w then (Some OSError, w\<lparr>fs := (fs w)(f \<mapsto> File [])\<rparr>)
      else (None, w\<lparr>fs := (fs w)(f \<mapsto> File txt)\<rparr>))"
  by (simp add: file_write_def)

lemma print_written:
  "print s (w\<lparr>fs := t\<rparr>) =
     (if stdout_fails w \<and> \<not> stdout_buffered w then (Some OSError, w\<lparr>fs := t\<rparr>)
      else (None, w\<lparr>fs := t, stdout := stdout w @ s @ [CHR 0x0A]\<rparr>))"
  by (simp add: print_def)

text \<open>
  The steps of \<^verbatim>\<open>main\<close> after \<^verbatim>\<open>os.makedirs\<close>, from the world \<open>w1\<close> it left, when the
  output path resolves to \<open>f\<close>.
\<close>

lemma main_after_makedirs:
  assumes "makedirs (out_dir file) True w = (None, w1)"
    and "resolve w1 (out_file file (timestamp now)) = Inr f"
  shows "main now file w =
     (if fs w1 f = Some Dir then (Some IsADirectoryError, w1)
      else if f \<in> denied w1 then (Some PermissionError, w1)
      else if f \<in> write_fails w1 then (Some OSError, w1\<lparr>fs := (fs w1)(f \<mapsto> File [])\<rparr>)
      else if stdout_fails w1 \<and> \<not> stdout_buffered w1 then
        (Some OSError, w1\<lparr>fs := (fs w1)(f \<mapsto> File (json_dump_indent 2 (result (timestamp now))))\<rparr>)
      else (None, finish now f w1))"
  by (simp add: main_unfold assms open_w_def file_write_opened print_written finish_def)

lemma makedirs_resolve_out_file:
  assumes "makedirs (out_dir file) True w = (None, w1)"
  shows "\<exists>dc. resolve w1 (out_dir file) = Inr dc \<and> fs w1 dc = Some Dir
           \<and> resolve w1 (out_file file (timestamp now)) = Inr (dc @ [out_name (timestamp now)])"
proof -
  from assms obtain dc where dc: "resolve w1 (out_dir file) = Inr dc" "fs w1 dc = Some Dir"
    using makedirs_out_dir_isdir [OF assms] unfolding path_isdir_iff by blast
  then have "resolve w1 (out_file file (timestamp now)) = Inr (dc @ [out_name (timestamp now)])"
    by (simp add: resolve_out_file [OF timestamp_no_sep])
  with dc show ?thesis
    by blast
qed

lemma main_None_iff:
  "main now file w = (None, w') \<longleftrightarrow>
     (\<exists>w1 dc. makedirs (out_dir file) True w = (None, w1)
        \<and> resolve w1 (out_dir file) = Inr dc \<and> fs w1 dc = Some Dir
        \<and> fs w1 (dc @ [out_name (timestamp now)]) \<noteq> Some Dir
        \<and> dc @ [out_name (timestamp now)] \<notin> denied w1
        \<and> dc @ [out_name (timestamp now)] \<notin> write_fails w1
        \<and> \<not> (stdout_fails w1 \<and> \<not> stdout_buffered w1)
        \<and> w' = finish now (dc @ [out_name (timestamp now)]) w1)"
  (is "?L \<longleftrightarrow> ?R")
proof
  assume l: ?L
  then obtain w1 where w1: "makedirs (out_dir file) True w = (None, w1)"
    by (auto simp: main_unfold split: prod.splits option.splits)
  from makedirs_resolve_out_file [OF w1, of now] obtain dc
    where dc: "resolve w1 (out_dir file) = Inr dc" "fs w1 dc = Some Dir"
      and r: "resolve w1 (out_file file (timestamp now)) = Inr (dc @ [out_name (timestamp now)])"
    by blast
  from l show ?R
    unfolding main_after_makedirs [OF w1 r]
    using w1 dc by (auto split: if_splits)
next
  assume ?R
  then obtain w1 dc where w1: "makedirs (out_dir file) True w = (None, w1)"
    and dc: "resolve w1 (out_dir file) = Inr dc" "fs w1 dc = Some Dir"
    and f: "fs w1 (dc @ [out_name (timestamp now)]) \<noteq> Some Dir"
      "dc @ [out_name (timestamp now)] \<notin> denied w1"
      "dc @ [out_name (timestamp now)] \<notin> write_fails w1"
      "\<not> (stdout_fails w1 \<and> \<not> stdout_buffered w1)"
    and w': "w' = finish now (dc @ [out_name (timestamp now)]) w1"
    by blast
  from dc have "resolve w1 (out_file file (timestamp now)) = Inr (dc @ [out_name (timestamp now)])"
    by (simp add: resolve_out_file [OF timestamp_no_sep])
  from main_after_makedirs [OF w1 this] f w' show ?L
    by simp
qed



subsection \<open>\<^verbatim>\<open>main\<close>, step by step\<close>

lemma grows_stdout: "grows w w' \<Longrightarrow> stdout w' = stdout w"
  by (simp add: grows_def)

lemma main_completed:
  assumes "main now file w = (None, w')"
  shows "printed w w' = json_dumps (result (timestamp now)) @ [CHR 0x0A]"
    and "file_text w' (out_file file (timestamp now)) = Some (json_dump_indent 2 (result (timestamp now)))"
proof -
  let ?f = "out_name (timestamp now)"
  from assms obtain w1 dc where w1: "makedirs (out_dir file) True w = (None, w1)"
    and dc: "resolve w1 (out_dir file) = Inr dc" "fs w1 dc = Some Dir"
    and f: "fs w1 (dc @ [?f]) \<noteq> Some Dir"
    and w': "w' = finish now (dc @ [?f]) w1"
    unfolding main_None_iff by blast
  have "stdout w1 = stdout w"
    using makedirs_grows [OF w1] by (rule grows_stdout)
  then show "printed w w' = json_dumps (result (timestamp now)) @ [CHR 0x0A]"
    by (simp add: printed_def w' finish_def)
  have "resolve w1 (out_file file (timestamp now)) = Inr (dc @ [?f])"
    using dc by (simp add: resolve_out_file [OF timestamp_no_sep])
  moreover have "fs w' q = Some Dir" if "fs w1 q = Some Dir" for q
    using that f by (auto simp: w' finish_def)
  moreover have "cwd w' = cwd w1"
    by (simp add: w' finish_def)
  ultimately have "resolve w' (out_file file (timestamp now)) = Inr (dc @ [?f])"
    using resolve_mono by blast
  then show "file_text w' (out_file file (timestamp now)) = Some (json_dump_indent 2 (result (timestamp now)))"
    by (simp add: file_text_def stat_def w' finish_def)
qed

lemma main_run_existing:
  assumes "resolve w (out_dir file) = Inr dc" "fs w dc = Some Dir"
    and "fs w (dc @ [out_name (timestamp now)]) \<noteq> Some Dir"
    and "dc @ [out_name (timestamp now)] \<notin> denied w"
    and "dc @ [out_name (timestamp now)] \<notin> write_fails w"
    and "\<not> (stdout_fails w \<and> \<not> stdout_buffered w)"
  shows "main now file w = (None, finish now (dc @ [out_name (timestamp now)]) w)"
proof -
  have "path_isdir w (out_dir file)"
    using assms(1,2) by (auto simp: path_isdir_iff)
  then have "makedirs (out_dir file) True w = (None, w)"
    by (rule makedirs_out_dir_existing)
  with assms show ?thesis
    unfolding main_None_iff by blast
qed

lemma main_run_fresh:
  assumes "resolve w (results_parent file) = Inr pc" "fs w pc = Some Dir"
    and "fs w (pc @ [''results'']) = None" "pc @ [''results''] \<notin> denied w"
    and "fs w (pc @ [''results'', out_name (timestamp now)]) \<noteq> Some Dir"
    and "pc @ [''results'', out_name (timestamp now)] \<notin> denied w"
    and "pc @ [''results'', out_name (timestamp now)] \<notin> write_fails w"
    and "\<not> (stdout_fails w \<and> \<not> stdout_buffered w)"
  shows "main now file w =
           (None, finish now (pc @ [''results'', out_name (timestamp now)])
                    (w\<lparr>fs := (fs w)(pc @ [''results''] \<mapsto> Dir)\<rparr>))"
proof -
  let ?w1 = "w\<lparr>fs := (fs w)(pc @ [''results''] \<mapsto> Dir)\<rparr>"
  have m: "makedirs (out_dir file) True w = (None, ?w1)"
    using assms(1-4) by (rule makedirs_out_dir_creates)
  have "resolve w (out_dir file) = Inr (pc @ [''results''])"
    using assms(1,2) by (simp add: resolve_out_dir)
  then have r: "resolve ?w1 (out_dir file) = Inr (pc @ [''results''])"
    by (rule resolve_mono [rotated 2]) (use assms(3) in auto)
  show ?thesis
    unfolding main_None_iff
    using m r assms(5-8) by (intro exI [of _ ?w1] exI [of _ "pc @ [''results'']"]) simp
qed

subsection \<open>The concrete run, evaluated\<close>

lemma example_timestamp: "timestamp example_time = ''20240309-070500''"
  by (simp add: timestamp_eq example_time_def int_repr_def pad2_def dec.simps digit_char_def)

lemma example_results_parent:
  "results_parent example_file = ''/repo/harness/adapters/swebench/../..''"
  by (simp add: results_parent_cases path_dirname_def path_split_def rstrip_sep_def example_file_def)

lemma example_resolve:
  "resolve example_world (results_parent example_file) = Inr [''repo'', ''harness'']"
  by (simp add: example_results_parent resolve_def components_def example_world_def)

lemma example_main:
  "main example_time example_file example_world =
     (None, finish example_time [''repo'', ''harness'', ''results'', ''swebench-20240309-070500.json'']
              (example_world\<lparr>fs := (fs example_world)([''repo'', ''harness'', ''results''] \<mapsto> Dir)\<rparr>))"
  using main_run_fresh [of example_world example_file "[''repo'', ''harness'']" example_time]
  by (simp add: example_resolve example_timestamp out_name_def) (simp add: example_world_def)

lemma example_main_after: "main example_time example_file example_world = (None, example_after)"
  by (simp add: example_main example_after_def)

lemma example_valid: "valid_fields example_time"
  by (simp add: valid_fields_def example_time_def)

lemma far_timestamp: "timestamp far_time = ''100000101-000000''"
  by (simp add: timestamp_eq far_time_def int_repr_def pad2_def dec.simps digit_char_def)

lemma far_main:
  "main far_time example_file example_world =
     (None, finish far_time [''repo'', ''harness'', ''results'', ''swebench-100000101-000000.json'']
              (example_world\<lparr>fs := (fs example_world)([''repo'', ''harness'', ''results''] \<mapsto> Dir)\<rparr>))"
  using main_run_fresh [of example_world example_file "[''repo'', ''harness'']" far_time]
  by (simp add: example_resolve far_timestamp out_name_def) (simp add: example_world_def)

lemma main_completed_paths:
  assumes "main now file w = (None, w')"
  shows "\<exists>w1 dc. makedirs (out_dir file) True w = (None, w1)
           \<and> w' = finish now (dc @ [out_name (timestamp now)]) w1
           \<and> resolve w1 (out_dir file) = Inr dc \<and> fs w1 dc = Some Dir
           \<and> fs w1 (dc @ [out_name (timestamp now)]) \<noteq> Some Dir
           \<and> dc @ [out_name (timestamp now)] \<notin> denied w1
           \<and> resolve w' (out_dir file) = Inr dc \<and> fs w' dc = Some Dir
           \<and> resolve w' (out_file file (timestamp now)) = Inr (dc @ [out_name (timestamp now)])
           \<and> dc @ [out_name (timestamp now)] \<notin> write_fails w1
           \<and> \<not> (stdout_fails w1 \<and> \<not> stdout_buffered w1)"
proof -
  let ?f = "out_name (timestamp now)"
  from assms obtain w1 dc where w1: "makedirs (out_dir file) True w = (None, w1)"
    and dc: "resolve w1 (out_dir file) = Inr dc" "fs w1 dc = Some Dir"
    and f: "fs w1 (dc @ [?f]) \<noteq> Some Dir" "dc @ [?f] \<notin> denied w1"
      "dc @ [?f] \<notin> write_fails w1" "\<not> (stdout_fails w1 \<and> \<not> stdout_buffered w1)"
    and w': "w' = finish now (dc @ [?f]) w1"
    unfolding main_None_iff by blast
  have keep: "fs w' q = Some Dir" if "fs w1 q = Some Dir" for q
    using that f by (auto simp: w' finish_def)
  have cwd: "cwd w' = cwd w1"
    by (simp add: w' finish_def)
  have d': "resolve w' (out_dir file) = Inr dc"
    using resolve_mono [of w1 w', OF keep cwd dc(1)] .
  have "fs w' dc = Some Dir"
    using dc(2) by (rule keep)
  with d' have "resolve w' (out_file file (timestamp now)) = Inr (dc @ [?f])"
    by (simp add: resolve_out_file [OF timestamp_no_sep])
  with w1 dc f w' d' \<open>fs w' dc = Some Dir\<close> show ?thesis
    by blast
qed

lemma out_file_string:
  "out_file file ts = out_dir file @ ''/swebench-'' @ ts @ ''.json''"
  by (simp add: out_file_eq out_name_def)

lemma example_out_dir: "out_dir example_file = ''/repo/harness/adapters/swebench/../../results''"
  by (simp add: out_dir_eq example_results_parent)

lemma example_after_resolve_out_dir:
  "resolve example_after (out_dir example_file) = Inr [''repo'', ''harness'', ''results'']"
  by (simp add: example_out_dir resolve_def components_def example_after_def finish_def
      example_world_def)



lemma later_timestamp: "timestamp later_time = ''20240309-070501''"
  by (simp add: timestamp_eq later_time_def example_time_def int_repr_def pad2_def dec.simps
      digit_char_def)

lemma example_after_results_dir: "fs example_after [''repo'', ''harness'', ''results''] = Some Dir"
  by (simp add: example_after_def finish_def)

lemma example_main_again: "main example_time example_file example_after = (None, example_again)"
  unfolding example_again_def
  using main_run_existing [OF example_after_resolve_out_dir example_after_results_dir, of example_time]
  by (simp add: example_timestamp out_name_def) (simp add: example_after_def finish_def example_world_def)

lemma example_main_later: "main later_time example_file example_after = (None, example_later)"
  unfolding example_later_def
  using main_run_existing [OF example_after_resolve_out_dir example_after_results_dir, of later_time]
  by (simp add: later_timestamp out_name_def) (simp add: example_after_def finish_def example_world_def)




lemma out_name_inject: "out_name a = out_name b \<longleftrightarrow> a = b"
  by (simp add: out_name_def)

lemma out_file_inject: "out_file file a = out_file file b \<longleftrightarrow> a = b"
  by (simp add: out_file_eq out_name_inject)

lemma example_later_file:
  "out_file example_file ''20240309-070501''
     = ''/repo/harness/adapters/swebench/../../results/swebench-20240309-070501.json''"
  by (simp add: out_file_string example_out_dir)

lemma example_first_file:
  "out_file example_file ''20240309-070500''
     = ''/repo/harness/adapters/swebench/../../results/swebench-20240309-070500.json''"
  by (simp add: out_file_string example_out_dir)




















subsection \<open>What a call changes\<close>








section \<open>The claims\<close>

text \<open>
  Claim C1. Whatever the clock, the value of \<^verbatim>\<open>__file__\<close> and the world, a call of \<^verbatim>\<open>main\<close>
  that completes has printed a line and written a file that both decode to a record with
  exactly the four keys \<^verbatim>\<open>timestamp\<close>, \<^verbatim>\<open>instances\<close>, \<^verbatim>\<open>resolved\<close>, \<^verbatim>\<open>score\<close>, in which
  \<^verbatim>\<open>instances\<close>, \<^verbatim>\<open>resolved\<close> and \<^verbatim>\<open>score\<close> are the integer 0.
\<close>

theorem result_record_four_keys_zero_counts:
  assumes "main now file w = (None, w')"
  shows "json_loads (printed w w') =
           Some (JObj [(''timestamp'', JStr (timestamp now)), (''instances'', JInt 0),
                       (''resolved'', JInt 0), (''score'', JInt 0)])
         \<and> (\<exists>text. file_text w' (out_file file (timestamp now)) = Some text
               \<and> json_loads text =
                    Some (JObj [(''timestamp'', JStr (timestamp now)), (''instances'', JInt 0),
                                (''resolved'', JInt 0), (''score'', JInt 0)]))"
  using main_completed [OF assms] loads_print_result [OF timestamp_plain, of now]
    loads_dump_indent_result [OF timestamp_plain, of now]
  by (simp add: result_def)

text \<open>The theorem at the concrete run.\<close>

theorem result_record_four_keys_zero_counts_witness:
  "main example_time example_file example_world = (None, example_after)
   \<and> json_loads (printed example_world example_after) =
           Some (JObj [(''timestamp'', JStr ''20240309-070500''), (''instances'', JInt 0),
                       (''resolved'', JInt 0), (''score'', JInt 0)])
   \<and> (\<exists>text. file_text example_after (out_file example_file ''20240309-070500'') = Some text
               \<and> json_loads text =
                    Some (JObj [(''timestamp'', JStr ''20240309-070500''), (''instances'', JInt 0),
                                (''resolved'', JInt 0), (''score'', JInt 0)]))"
  using result_record_four_keys_zero_counts [OF example_main_after] example_main_after
  by (simp add: example_timestamp)

text \<open>
  Claim C2. After a call of \<^verbatim>\<open>main\<close> that completes, the output file holds the record
  serialized with two-space indentation, standard output has received the compact
  serialization and a newline, and decoding either text yields the same record.
\<close>

theorem file_and_stdout_parse_to_same_record:
  assumes "main now file w = (None, w')"
  shows "file_text w' (out_file file (timestamp now)) = Some (json_dump_indent 2 (result (timestamp now)))
         \<and> printed w w' = json_dumps (result (timestamp now)) @ [CHR 0x0A]
         \<and> json_loads (json_dump_indent 2 (result (timestamp now))) = Some (result (timestamp now))
         \<and> json_loads (printed w w') = Some (result (timestamp now))"
  using main_completed [OF assms] loads_print_result [OF timestamp_plain, of now]
    loads_dump_indent_result [OF timestamp_plain, of now]
  by simp

text \<open>The theorem at the concrete run.\<close>

theorem file_and_stdout_parse_to_same_record_witness:
  "main example_time example_file example_world = (None, example_after)
   \<and> file_text example_after (out_file example_file ''20240309-070500'')
       = Some (json_dump_indent 2 (result ''20240309-070500''))
   \<and> printed example_world example_after = json_dumps (result ''20240309-070500'') @ [CHR 0x0A]
   \<and> json_loads (json_dump_indent 2 (result ''20240309-070500'')) = Some (result ''20240309-070500'')
   \<and> json_loads (printed example_world example_after) = Some (result ''20240309-070500'')"
  using file_and_stdout_parse_to_same_record [OF example_main_after, unfolded example_timestamp]
    example_main_after
  by blast

text \<open>
  Claim C3, as amended. For a clock reading whose fields are in range and whose year is
  1000 or later, the timestamp matches \<^verbatim>\<open>\d{8}-\d{6}\<close> exactly when the year is at most
  9999, that is when it has four digits; and the timestamp is the \<^verbatim>\<open>timestamp\<close> field of
  the record a completed call prints.
\<close>

theorem timestamp_pattern_for_four_digit_year:
  "(valid_fields now \<and> 1000 \<le> tm_year now \<longrightarrow>
      (ts_pattern (timestamp now) \<longleftrightarrow> tm_year now \<le> 9999))
   \<and> (main now file w = (None, w') \<longrightarrow>
        json_loads (printed w w') =
          Some (JObj [(''timestamp'', JStr (timestamp now)), (''instances'', JInt 0),
                      (''resolved'', JInt 0), (''score'', JInt 0)]))"
proof (intro conjI impI)
  assume "valid_fields now \<and> 1000 \<le> tm_year now"
  then show "ts_pattern (timestamp now) \<longleftrightarrow> tm_year now \<le> 9999"
    by (simp add: ts_pattern_iff)
next
  assume "main now file w = (None, w')"
  then show "json_loads (printed w w') =
          Some (JObj [(''timestamp'', JStr (timestamp now)), (''instances'', JInt 0),
                      (''resolved'', JInt 0), (''score'', JInt 0)])"
    using main_completed(1) loads_print_result [OF timestamp_plain, of now]
    by (simp add: result_def)
qed

text \<open>The theorem at the concrete run.\<close>

theorem timestamp_pattern_for_four_digit_year_witness:
  "valid_fields example_time \<and> 1000 \<le> tm_year example_time \<and> tm_year example_time \<le> 9999
   \<and> main example_time example_file example_world = (None, example_after)
   \<and> ts_pattern ''20240309-070500''
   \<and> json_loads (printed example_world example_after) =
          Some (JObj [(''timestamp'', JStr ''20240309-070500''), (''instances'', JInt 0),
                      (''resolved'', JInt 0), (''score'', JInt 0)])"
  using timestamp_pattern_for_four_digit_year [of example_time example_file example_world example_after]
    example_main_after example_valid
  by (simp add: example_timestamp) (simp add: example_time_def)

text \<open>
  The claim as stated, for every call, fails in the year 10000: the year then has five
  digits and the timestamp nine digits before the hyphen.
\<close>

theorem timestamp_pattern_counterexample:
  "valid_fields far_time
   \<and> fst (main far_time example_file example_world) = None
   \<and> json_loads (printed example_world (snd (main far_time example_file example_world))) =
          Some (JObj [(''timestamp'', JStr ''100000101-000000''), (''instances'', JInt 0),
                      (''resolved'', JInt 0), (''score'', JInt 0)])
   \<and> \<not> ts_pattern ''100000101-000000''"
proof -
  have m: "main far_time example_file example_world = (fst (main far_time example_file example_world), snd (main far_time example_file example_world))"
    by simp
  have n: "fst (main far_time example_file example_world) = None"
    by (simp add: far_main)
  have "json_loads (printed example_world (snd (main far_time example_file example_world))) =
          Some (result (timestamp far_time))"
    using main_completed(1) [of far_time example_file example_world] m n
      loads_print_result [OF timestamp_plain, of far_time]
    by metis
  moreover have "\<not> ts_pattern ''100000101-000000''"
    by (simp add: ts_pattern_def)
  moreover have "valid_fields far_time"
    by (simp add: valid_fields_def far_time_def)
  ultimately show ?thesis
    using n by (simp add: far_timestamp result_def)
qed

text \<open>
  Claim C4. After a call of \<^verbatim>\<open>main\<close> that completes, the path given to \<^verbatim>\<open>open\<close> is the
  results directory, a slash and \<^verbatim>\<open>swebench-<timestamp>.json\<close>; it names the entry of that
  name in the results directory, and the record in that file has the same string as its
  \<^verbatim>\<open>timestamp\<close> field.
\<close>

theorem output_path_is_results_dir_and_timestamp_name:
  assumes "main now file w = (None, w')"
  shows "path_join (out_dir file) [''swebench-'' @ timestamp now @ ''.json'']
           = out_dir file @ ''/swebench-'' @ timestamp now @ ''.json''
         \<and> (\<exists>dc. resolve w' (out_dir file) = Inr dc \<and> fs w' dc = Some Dir
               \<and> resolve w' (out_dir file @ ''/swebench-'' @ timestamp now @ ''.json'')
                   = Inr (dc @ [''swebench-'' @ timestamp now @ ''.json'']))
         \<and> (\<exists>text. file_text w' (out_dir file @ ''/swebench-'' @ timestamp now @ ''.json'')
                      = Some text
               \<and> json_loads text =
                    Some (JObj [(''timestamp'', JStr (timestamp now)), (''instances'', JInt 0),
                                (''resolved'', JInt 0), (''score'', JInt 0)]))"
proof -
  have s: "out_file file (timestamp now) = out_dir file @ ''/swebench-'' @ timestamp now @ ''.json''"
    by (rule out_file_string)
  have "path_join (out_dir file) [''swebench-'' @ timestamp now @ ''.json'']
          = out_file file (timestamp now)"
    by (simp add: out_file_def out_name_def)
  moreover have "\<exists>dc. resolve w' (out_dir file) = Inr dc \<and> fs w' dc = Some Dir
               \<and> resolve w' (out_file file (timestamp now))
                   = Inr (dc @ [''swebench-'' @ timestamp now @ ''.json''])"
    using main_completed_paths [OF assms] unfolding out_name_def by blast
  moreover have "\<exists>text. file_text w' (out_file file (timestamp now)) = Some text
               \<and> json_loads text = Some (result (timestamp now))"
    using main_completed(2) [OF assms] loads_dump_indent_result [OF timestamp_plain, of now]
    by simp
  ultimately show ?thesis
    unfolding s result_def by blast
qed

text \<open>The theorem at the concrete run.\<close>

theorem output_path_is_results_dir_and_timestamp_name_witness:
  "main example_time example_file example_world = (None, example_after)
   \<and> path_join ''/repo/harness/adapters/swebench/../../results'' [''swebench-20240309-070500.json'']
        = ''/repo/harness/adapters/swebench/../../results/swebench-20240309-070500.json''
   \<and> resolve example_after ''/repo/harness/adapters/swebench/../../results/swebench-20240309-070500.json''
        = Inr [''repo'', ''harness'', ''results'', ''swebench-20240309-070500.json'']
   \<and> (\<exists>text. file_text example_after
                 ''/repo/harness/adapters/swebench/../../results/swebench-20240309-070500.json''
                      = Some text
               \<and> json_loads text =
                    Some (JObj [(''timestamp'', JStr ''20240309-070500''), (''instances'', JInt 0),
                                (''resolved'', JInt 0), (''score'', JInt 0)]))"
  using output_path_is_results_dir_and_timestamp_name [OF example_main_after]
    example_main_after example_after_resolve_out_dir
  by (simp add: example_timestamp example_out_dir)



text \<open>
  Claim C6. Two calls (same \<^verbatim>\<open>__file__\<close>, the second in the world the first left) that both
  complete and whose timestamps are distinct strings open distinct paths that name two
  distinct entries of the results directory; after the second call each of the two files
  holds the record of its own call, so the second call has not written over the file of
  the first.
\<close>

theorem distinct_timestamps_write_distinct_files:
  assumes "main now1 file w = (None, w1)" "main now2 file w1 = (None, w2)"
    and "timestamp now1 \<noteq> timestamp now2"
  shows "out_file file (timestamp now1) \<noteq> out_file file (timestamp now2)
         \<and> (\<exists>dc. resolve w2 (out_file file (timestamp now1)) = Inr (dc @ [out_name (timestamp now1)])
               \<and> resolve w2 (out_file file (timestamp now2)) = Inr (dc @ [out_name (timestamp now2)])
               \<and> out_name (timestamp now1) \<noteq> out_name (timestamp now2))
         \<and> file_text w1 (out_file file (timestamp now1))
             = Some (json_dump_indent 2 (result (timestamp now1)))
         \<and> file_text w2 (out_file file (timestamp now1))
             = Some (json_dump_indent 2 (result (timestamp now1)))
         \<and> file_text w2 (out_file file (timestamp now2))
             = Some (json_dump_indent 2 (result (timestamp now2)))"
proof -
  let ?n1 = "out_name (timestamp now1)" and ?n2 = "out_name (timestamp now2)"
  from main_completed_paths [OF assms(1)] obtain w0 dc
    where w1: "w1 = finish now1 (dc @ [?n1]) w0"
      and d1: "resolve w1 (out_dir file) = Inr dc" "fs w1 dc = Some Dir"
    by blast
  have f1: "fs w1 (dc @ [?n1]) = Some (File (json_dump_indent 2 (result (timestamp now1))))"
    by (simp add: w1 finish_def)
  have "path_isdir w1 (out_dir file)"
    using d1 by (auto simp: path_isdir_iff)
  then have m: "makedirs (out_dir file) True w1 = (None, w1)"
    by (rule makedirs_out_dir_existing)
  from main_completed_paths [OF assms(2)] m d1 have w2: "w2 = finish now2 (dc @ [?n2]) w1"
    and d2: "resolve w2 (out_dir file) = Inr dc" "fs w2 dc = Some Dir"
    and r2: "resolve w2 (out_file file (timestamp now2)) = Inr (dc @ [?n2])"
    by auto
  have ne: "?n1 \<noteq> ?n2"
    using assms(3) by (simp add: out_name_inject)
  have r1: "resolve w2 (out_file file (timestamp now1)) = Inr (dc @ [?n1])"
    using d2 by (simp add: resolve_out_file [OF timestamp_no_sep])
  have "fs w2 (dc @ [?n1]) = fs w1 (dc @ [?n1])"
    using ne by (simp add: w2 finish_def)
  with f1 r1 have t1: "file_text w2 (out_file file (timestamp now1))
             = Some (json_dump_indent 2 (result (timestamp now1)))"
    by (simp add: file_text_def stat_def)
  show ?thesis
    using assms(3) r1 r2 ne t1 main_completed(2) [OF assms(1)] main_completed(2) [OF assms(2)]
    by (simp add: out_file_inject)
qed

text \<open>The theorem at the concrete run followed by a run one second later.\<close>

theorem distinct_timestamps_write_distinct_files_witness:
  "main example_time example_file example_world = (None, example_after)
   \<and> main later_time example_file example_after = (None, example_later)
   \<and> timestamp example_time \<noteq> timestamp later_time
   \<and> out_file example_file ''20240309-070500'' \<noteq> out_file example_file ''20240309-070501''
   \<and> file_text example_later
         ''/repo/harness/adapters/swebench/../../results/swebench-20240309-070500.json''
       = Some (json_dump_indent 2 (result ''20240309-070500''))
   \<and> file_text example_later
         ''/repo/harness/adapters/swebench/../../results/swebench-20240309-070501.json''
       = Some (json_dump_indent 2 (result ''20240309-070501''))"
proof -
  have ne: "timestamp example_time \<noteq> timestamp later_time"
    by (simp add: example_timestamp later_timestamp)
  note t = distinct_timestamps_write_distinct_files [OF example_main_after example_main_later ne,
      unfolded example_timestamp later_timestamp]
  show ?thesis
    using t ne example_main_after example_main_later
    unfolding example_first_file example_later_file by blast
qed







text \<open>
  Claim C9. Given the clock, \<^verbatim>\<open>main\<close> is deterministic: the line it prints and the text
  it writes are functions of the timestamp alone. Two completed calls with the same
  timestamp, in any two worlds and for any two values of \<^verbatim>\<open>__file__\<close>, print the same
  characters and write the same characters.
\<close>

theorem output_determined_by_timestamp:
  assumes "main now1 file1 w1 = (None, w1')" "main now2 file2 w2 = (None, w2')"
    and "timestamp now1 = timestamp now2"
  shows "printed w1 w1' = json_dumps (result (timestamp now1)) @ [CHR 0x0A]
         \<and> file_text w1' (out_file file1 (timestamp now1))
             = Some (json_dump_indent 2 (result (timestamp now1)))
         \<and> printed w2 w2' = printed w1 w1'
         \<and> file_text w2' (out_file file2 (timestamp now2))
             = file_text w1' (out_file file1 (timestamp now1))"
  using main_completed [OF assms(1)] main_completed [OF assms(2)] assms(3) by simp

text \<open>The theorem at the concrete run and its repetition at the same clock reading.\<close>

theorem output_determined_by_timestamp_witness:
  "main example_time example_file example_world = (None, example_after)
   \<and> main example_time example_file example_after = (None, example_again)
   \<and> printed example_world example_after = json_dumps (result ''20240309-070500'') @ [CHR 0x0A]
   \<and> file_text example_after (out_file example_file ''20240309-070500'')
       = Some (json_dump_indent 2 (result ''20240309-070500''))
   \<and> printed example_after example_again = printed example_world example_after
   \<and> file_text example_again (out_file example_file ''20240309-070500'')
       = file_text example_after (out_file example_file ''20240309-070500'')"
  using output_determined_by_timestamp [OF example_main_after example_main_again refl,
      unfolded example_timestamp] example_main_after example_main_again
  by blast



end
